theory Spec2Isabelle
  imports Complex_Main "HOL-Library.Multiset" "HOL-Library.Sublist" "HOL-Library.AList"
begin

section \<open>Data model\<close>

text \<open>
  A cell of a parsed CSV file is a dynamically typed scalar.  A floating-point cell is kept by
  the exact value of the double; not-a-number cells are not represented.
\<close>

datatype scalar = IntV int | StrV string | BoolV bool | FloatV rat

text \<open>
  A pandas \<open>DataFrame\<close> with the default \<open>RangeIndex\<close>: the named columns in file order,
  each holding its cells in row order.
\<close>

type_synonym column = "string \<times> scalar list"
type_synonym dataframe = "column list"

text \<open>\<open>len(df)\<close>: the number of rows.\<close>

fun len_df :: "dataframe \<Rightarrow> nat" where
  "len_df [] = 0"
| "len_df ((name, cells) # rest) = length cells"

text \<open>
  What \<open>pd.read_csv\<close> guarantees of the frame it returns: column names are pairwise
  distinct (duplicates are renamed by the parser) and all columns have the same number of rows.
\<close>

definition wf_df :: "dataframe \<Rightarrow> bool" where
  "wf_df df \<longleftrightarrow> distinct (map fst df) \<and> list_all (\<lambda>c. length (snd c) = len_df df) df"

text \<open>\<open>df[c]\<close> for a column name of the frame.\<close>

definition column_of :: "dataframe \<Rightarrow> string \<Rightarrow> scalar list" where
  "column_of df c = (case map_of df c of Some cells \<Rightarrow> cells | None \<Rightarrow> [])"

datatype error = RuntimeError string | ValueError string | KeyError | IndexError | EmptyDataError

section \<open>Column types and the cast of a row\<close>

text \<open>
  The dtype that the parser gives a column: \<open>bool\<close>, \<open>int64\<close>, \<open>uint64\<close> when some
  integer does not fit \<open>int64\<close> and all fit \<open>uint64\<close>, \<open>float64\<close>, and \<open>object\<close> for
  strings, for mixed cells and for a column without rows.
\<close>

datatype dtype = BoolT | Int64 | UInt64 | Float64 | Object

fun is_bool :: "scalar \<Rightarrow> bool" where
  "is_bool (BoolV b) = True"
| "is_bool c = False"

fun in_int64 :: "scalar \<Rightarrow> bool" where
  "in_int64 (IntV i) = (- (2 ^ 63) \<le> i \<and> i < 2 ^ 63)"
| "in_int64 c = False"

fun in_uint64 :: "scalar \<Rightarrow> bool" where
  "in_uint64 (IntV i) = (0 \<le> i \<and> i < 2 ^ 64)"
| "in_uint64 c = False"

fun is_float :: "scalar \<Rightarrow> bool" where
  "is_float (FloatV x) = True"
| "is_float c = False"

definition dtype_of :: "scalar list \<Rightarrow> dtype" where
  "dtype_of cells =
     (if cells = [] then Object
      else if list_all is_bool cells then BoolT
      else if list_all in_int64 cells then Int64
      else if list_all in_uint64 cells then UInt64
      else if list_all is_float cells then Float64
      else Object)"

text \<open>
  The dtype of a row that is taken across columns (\<open>df.loc[0]\<close>, \<open>df.values\<close>): the
  columns' own dtype when they all have the same; \<open>object\<close> as soon as one column is
  \<open>object\<close> or \<open>bool\<close> stands beside numbers; \<open>float64\<close> for any other mix of numeric
  dtypes, in particular for \<open>int64\<close> beside \<open>uint64\<close>.
\<close>

definition find_common_type :: "dtype list \<Rightarrow> dtype" where
  "find_common_type ts =
     (case remdups ts of
        [] \<Rightarrow> Object
      | [t] \<Rightarrow> t
      | t # u # rest \<Rightarrow> if Object \<in> set ts \<or> BoolT \<in> set ts then Object else Float64)"

definition common_dtype :: "dataframe \<Rightarrow> dtype" where
  "common_dtype df = find_common_type (map (\<lambda>c. dtype_of (snd c)) df)"

text \<open>
  The conversion of an integer to \<open>float64\<close>: integers of more than 53 bits are rounded to
  the nearest double, ties to the even significand.
\<close>

function bit_length :: "int \<Rightarrow> nat" where
  "bit_length a = (if a \<le> 0 then 0 else Suc (bit_length (a div 2)))"
  by pat_completeness auto
termination
  by (relation "measure nat") auto

declare bit_length.simps [simp del]

definition round_float64 :: "int \<Rightarrow> int" where
  "round_float64 i =
     (let a = \<bar>i\<bar>; n = bit_length a
      in if n \<le> 53 then i
         else (let k = n - 53; q = a div 2 ^ k; r = a mod 2 ^ k; half = 2 ^ (k - 1);
                   q' = (if half < r \<or> (r = half \<and> odd q) then q + 1 else q)
               in sgn i * (q' * 2 ^ k)))"

fun astype :: "dtype \<Rightarrow> scalar \<Rightarrow> scalar" where
  "astype Float64 (IntV i) = FloatV (of_int (round_float64 i))"
| "astype t c = c"

text \<open>
  \<open>df.loc[0, cols].values\<close>: the label \<open>0\<close> selects the whole row first, which is cast to
  the common dtype of all columns of the frame, and the named cells are then picked from it.
\<close>

definition loc_row0 :: "dataframe \<Rightarrow> string \<Rightarrow> scalar" where
  "loc_row0 df c = astype (common_dtype df) (column_of df c ! 0)"

text \<open>
  The attributes of the result: a constant column contributes its scalar; the NetLogo adapter
  adds one list that mixes column names, cells and a dictionary.
\<close>

datatype info = Name string | Cell scalar | Dict "(string \<times> scalar) list"

datatype attr = Scalar scalar | Info "info list"

text \<open>
  The \<open>xarray.Dataset\<close> built from the frame: the dimension names, the labels of each
  axis, one layer per variable (the cell of the layer at a tuple of labels, one label per
  dimension, is looked up in an association list), and the attribute dictionary in insertion
  order.  The labels of an axis are kept as a set, so that nothing is said about the order in
  which the library lists them.
\<close>

record dataset =
  dims :: "string list"
  coords :: "(string \<times> scalar set) list"
  data_vars :: "(string \<times> (scalar list \<times> scalar) list) list"
  attrs :: "(string \<times> attr) list"

definition shape :: "dataset \<Rightarrow> nat list" where
  "shape ds = map (\<lambda>c. card (snd c)) (coords ds)"

definition cell :: "dataset \<Rightarrow> string \<Rightarrow> scalar list \<Rightarrow> scalar option" where
  "cell ds v labels = (case map_of (data_vars ds) v of None \<Rightarrow> None | Some layer \<Rightarrow> map_of layer labels)"

section \<open>The tabular reader\<close>

text \<open>
  A CSV file as \<open>pd.read_csv\<close> sees it: for each number of skipped leading lines, the table
  whose header is the first remaining line.  A file that is left without any column is refused
  (\<open>EmptyDataError\<close>).  \<open>nrows\<close> keeps the first rows only and \<open>usecols\<close> keeps the named
  columns, in file order; an empty \<open>usecols\<close> gives a frame without columns.
\<close>

type_synonym csv_file = "nat \<Rightarrow> dataframe"

definition read_csv ::
    "csv_file \<Rightarrow> nat \<Rightarrow> nat option \<Rightarrow> string list option \<Rightarrow> error + dataframe" where
  "read_csv path skiprows nrows usecols =
     (let full = path skiprows
      in if full = [] then Inl EmptyDataError
         else
           (let kept = (case usecols of None \<Rightarrow> full
                        | Some cols \<Rightarrow> filter (\<lambda>c. fst c \<in> set cols) full)
            in case nrows of None \<Rightarrow> Inr kept
               | Some k \<Rightarrow> Inr (map (\<lambda>c. (fst c, take k (snd c))) kept)))"

definition columns :: "dataframe \<Rightarrow> string list" where
  "columns df = map fst df"

section \<open>Column classification\<close>

text \<open>\<open>df.apply(lambda x: len(pd.unique(x)))\<close>: the number of distinct cells of each column.\<close>

definition nunique :: "scalar list \<Rightarrow> nat" where
  "nunique cells = length (remdups cells)"

definition value_counts :: "dataframe \<Rightarrow> (string \<times> nat) list" where
  "value_counts df = map (\<lambda>c. (fst c, nunique (snd c))) df"

text \<open>
  \<open>Series.sort_values()\<close> is called with its default \<open>kind\<close> (quicksort), for which the
  library promises an ascending permutation and no more, so the sort is a parameter of the
  model and this is what is assumed of its result.
\<close>

definition ascending_order :: "(string \<times> nat) list \<Rightarrow> (string \<times> nat) list \<Rightarrow> bool" where
  "ascending_order vc sorted_vc \<longleftrightarrow> mset sorted_vc = mset vc \<and> sorted (map snd sorted_vc)"

text \<open>The local variables of the selection loop.\<close>

record loop_state =
  cumproduct :: nat
  coord :: "string list"
  var :: "string list"
  valid :: bool

definition init_state :: loop_state where
  "init_state = \<lparr>cumproduct = 1, coord = [], var = [], valid = False\<rparr>"

fun select_columns :: "nat \<Rightarrow> (string \<times> nat) list \<Rightarrow> loop_state \<Rightarrow> loop_state" where
  "select_columns length_df [] s = s"
| "select_columns length_df ((col, value) # rest) s =
     (if value = 1 then select_columns length_df rest s
      else if cumproduct s < length_df then
        (let s1 = s\<lparr>coord := coord s @ [col], cumproduct := cumproduct s * value\<rparr>;
             s2 = (if cumproduct s1 = length_df then s1\<lparr>valid := True\<rparr> else s1)
         in select_columns length_df rest s2)
      else select_columns length_df rest (s\<lparr>var := var s @ [col]\<rparr>))"

definition shape_message :: string where
  "shape_message =
     ''Invalid data structure. Seems like you do not have'' @
     ''the correct number of columns in your dataframe to create a cross product.'' @
     '' Try dropping a column with the skipcols argument''"

section \<open>Building the dataset\<close>

text \<open>The index built by \<open>set_index(coord)\<close>: for each row, its cells in the coordinate columns.\<close>

definition index_tuples :: "dataframe \<Rightarrow> string list \<Rightarrow> scalar list list" where
  "index_tuples df cols = map (\<lambda>i. map (\<lambda>c. column_of df c ! i) cols) [0..<len_df df]"

text \<open>
  \<open>df[coord+var].set_index(coord).to_xarray()\<close>.  With several coordinate columns the index is
  a \<open>MultiIndex\<close>, and the conversion refuses one that holds a tuple twice.
\<close>

definition to_xarray :: "dataframe \<Rightarrow> string list \<Rightarrow> string list \<Rightarrow> error + dataset" where
  "to_xarray df coord_cols var_cols =
     (let idx = index_tuples df coord_cols
      in if 1 < length coord_cols \<and> \<not> distinct idx
         then Inl (ValueError ''cannot convert a DataFrame with a non-unique MultiIndex into xarray'')
         else Inr \<lparr>dims = coord_cols,
                   coords = map (\<lambda>c. (c, set (column_of df c))) coord_cols,
                   data_vars = map (\<lambda>v. (v, zip idx (column_of df v))) var_cols,
                   attrs = []\<rparr>)"

text \<open>Lines 33 to 80 of \<open>read_sweep_csv\<close>: everything after the frame has been read.\<close>

definition classify_and_build ::
    "((string \<times> nat) list \<Rightarrow> (string \<times> nat) list) \<Rightarrow> dataframe \<Rightarrow> error + dataset" where
  "classify_and_build sort_values df =
     (let vc = sort_values (value_counts df);
          s = select_columns (len_df df) vc init_state
      in if \<not> valid s then Inl (RuntimeError shape_message)
         else
           (let meta_cols = map fst (filter (\<lambda>c. snd c = 1) vc)
            in case to_xarray df (coord s) (var s) of
                 Inl e \<Rightarrow> Inl e
               | Inr ds \<Rightarrow>
                   if len_df df = 0 then Inl KeyError
                   else Inr (ds\<lparr>attrs := map (\<lambda>c. (c, Scalar (loc_row0 df c))) meta_cols\<rparr>)))"

text \<open>Lines 22 to 30: the frame that is classified, without the skipped columns.\<close>

definition read_frame :: "csv_file \<Rightarrow> string list option \<Rightarrow> nat \<Rightarrow> error + dataframe" where
  "read_frame path skipcols skiprows =
     (case read_csv path skiprows (Some 0) None of
        Inl e \<Rightarrow> Inl e
      | Inr header \<Rightarrow>
          (let cols = columns header;
               usecols = (case skipcols of None \<Rightarrow> None
                          | Some skip \<Rightarrow> Some (filter (\<lambda>c. c \<notin> set skip) cols))
           in read_csv path skiprows None usecols))"

definition read_sweep_csv ::
    "((string \<times> nat) list \<Rightarrow> (string \<times> nat) list) \<Rightarrow> csv_file \<Rightarrow> string list option \<Rightarrow> nat
       \<Rightarrow> error + dataset" where
  "read_sweep_csv sort_values path skipcols skiprows =
     (case read_frame path skipcols skiprows of
        Inl e \<Rightarrow> Inl e
      | Inr df \<Rightarrow> classify_and_build sort_values df)"

section \<open>The NetLogo adapter\<close>

text \<open>
  \<open>df.values\<close>: the rows of a frame, every cell cast to the common dtype of the columns;
  \<open>reshape(1, -1)[0]\<close> lays the rows end to end.
\<close>

definition rows_of :: "dataframe \<Rightarrow> scalar list list" where
  "rows_of df = map (\<lambda>i. map (\<lambda>c. snd c ! i) df) [0..<len_df df]"

definition values_of :: "dataframe \<Rightarrow> scalar list list" where
  "values_of df = map (map (astype (common_dtype df))) (rows_of df)"

definition read_netlogo_table ::
    "((string \<times> nat) list \<Rightarrow> (string \<times> nat) list) \<Rightarrow> csv_file \<Rightarrow> error + dataset" where
  "read_netlogo_table sort_values path =
     (case read_sweep_csv sort_values path (Some [''[run number]'']) 6 of
        Inl e \<Rightarrow> Inl e
      | Inr ds \<Rightarrow>
          (case read_csv path 0 (Some 3) None of
             Inl e \<Rightarrow> Inl e
           | Inr df \<Rightarrow>
               (let model_info = map Name (columns df) @ map Cell (concat (values_of df))
                in case read_csv path 4 (Some 1) None of
                     Inl e \<Rightarrow> Inl e
                   | Inr df2 \<Rightarrow>
                       (case values_of df2 of
                          [] \<Rightarrow> Inl IndexError
                        | row # rest \<Rightarrow>
                            Inr (ds\<lparr>attrs := AList.update ''Metadata''
                                               (Info (model_info @ [Dict (zip (columns df2) row)]))
                                               (attrs ds)\<rparr>)))))"

section \<open>Notions used to state the properties\<close>

text \<open>The columns that the loop does not skip, in the order in which it meets them.\<close>

definition nonconst :: "(string \<times> nat) list \<Rightarrow> (string \<times> nat) list" where
  "nonconst vc = filter (\<lambda>c. snd c \<noteq> 1) vc"

text \<open>How many of the cardinalities \<open>cs\<close> are multiplied into a running product that starts at \<open>p\<close>.\<close>

fun ncoord :: "nat \<Rightarrow> nat \<Rightarrow> nat list \<Rightarrow> nat" where
  "ncoord n p [] = 0"
| "ncoord n p (c # cs) = (if p < n then Suc (ncoord n (p * c) cs) else 0)"

text \<open>
  The validity flag in the words of the specification: stepping through the cardinalities and
  multiplying while the running product is below the row count makes the running product
  equal to the row count at some step.
\<close>

fun running_product_hits :: "nat \<Rightarrow> nat \<Rightarrow> nat list \<Rightarrow> bool" where
  "running_product_hits n p [] = False"
| "running_product_hits n p (c # cs) =
     (if p < n then p * c = n \<or> running_product_hits n (p * c) cs else False)"

text \<open>The state in which the loop of \<open>read_sweep_csv\<close> ends on a frame.\<close>

definition final_state ::
    "((string \<times> nat) list \<Rightarrow> (string \<times> nat) list) \<Rightarrow> dataframe \<Rightarrow> loop_state" where
  "final_state sort_values df =
     select_columns (len_df df) (sort_values (value_counts df)) init_state"

text \<open>Line 69: the columns whose cell of row 0 becomes an attribute.\<close>

definition meta_cols ::
    "((string \<times> nat) list \<Rightarrow> (string \<times> nat) list) \<Rightarrow> dataframe \<Rightarrow> string list" where
  "meta_cols sort_values df = map fst (filter (\<lambda>c. snd c = 1) (sort_values (value_counts df)))"

text \<open>A file from which a column has been deleted.\<close>

definition remove_column :: "string \<Rightarrow> csv_file \<Rightarrow> csv_file" where
  "remove_column name path = (\<lambda>skiprows. filter (\<lambda>c. fst c \<noteq> name) (path skiprows))"


section \<open>Example files\<close>

text \<open>
  Twelve rows over the grid of three values of \<open>A\<close> and four of \<open>B\<close>, one outcome each,
  and a column that holds the same model name in every row.
\<close>

definition grid_3x4 :: dataframe where
  "grid_3x4 =
     [(''V'', map IntV [10, 11, 12, 13, 20, 21, 22, 23, 30, 31, 32, 33]),
      (''B'', map IntV [0, 1, 2, 3, 0, 1, 2, 3, 0, 1, 2, 3]),
      (''A'', map IntV [1, 1, 1, 1, 2, 2, 2, 2, 3, 3, 3, 3]),
      (''model'', map StrV [''m'', ''m'', ''m'', ''m'', ''m'', ''m'', ''m'', ''m'', ''m'', ''m'', ''m'', ''m''])]"

definition grid_file :: csv_file where
  "grid_file = (\<lambda>skiprows. grid_3x4)"

text \<open>One row: every column is constant.\<close>

definition single_row :: dataframe where
  "single_row = [(''seed'', [IntV 7]), (''label'', [StrV ''a''])]"

definition single_row_file :: csv_file where
  "single_row_file = (\<lambda>skiprows. single_row)"

text \<open>Three rows and one column with two distinct cells.\<close>

definition short_table :: dataframe where
  "short_table = [(''X'', [IntV 0, IntV 1, IntV 0])]"

definition short_file :: csv_file where
  "short_file = (\<lambda>skiprows. short_table)"

text \<open>Three rows, a column with two distinct cells and a column with three.\<close>

definition three_rows :: dataframe where
  "three_rows = [(''X'', [IntV 0, IntV 1, IntV 0]), (''Y'', [IntV 0, IntV 1, IntV 2])]"

definition three_rows_file :: csv_file where
  "three_rows_file = (\<lambda>skiprows. three_rows)"



text \<open>
  The 3 by 4 grid with one outcome per row, and the same grid with an outcome that takes two
  values only.
\<close>

definition a_cells :: "scalar list" where
  "a_cells = map IntV [1, 1, 1, 1, 2, 2, 2, 2, 3, 3, 3, 3]"

definition b_cells :: "scalar list" where
  "b_cells = map IntV [0, 1, 2, 3, 0, 1, 2, 3, 0, 1, 2, 3]"

definition v_cells :: "scalar list" where
  "v_cells = map IntV [10, 11, 12, 13, 20, 21, 22, 23, 30, 31, 32, 33]"

definition flag_cells :: "scalar list" where
  "flag_cells = map BoolV [True, False, True, False, True, False, True, False, True, False, True, False]"

definition plain_grid :: dataframe where
  "plain_grid = [(''V'', v_cells), (''B'', b_cells), (''A'', a_cells)]"

definition flag_grid :: dataframe where
  "flag_grid = [(''A'', a_cells), (''B'', b_cells), (''V'', flag_cells)]"



definition extra_grid :: dataframe where
  "extra_grid = [(''extra'', flag_cells), (''V'', v_cells), (''B'', b_cells), (''A'', a_cells)]"

definition extra_file :: csv_file where
  "extra_file = (\<lambda>skiprows. extra_grid)"

text \<open>A file whose only column is called \<open>extra\<close>.\<close>

definition only_extra_file :: csv_file where
  "only_extra_file = (\<lambda>skiprows. [(''extra'', [IntV 1, IntV 2])])"

text \<open>
  Six runs over a 2 by 3 grid with two constant columns: \<open>K\<close> holds \<open>2^63 + 1\<close>, which the
  parser reads as \<open>uint64\<close>, and the other columns are \<open>int64\<close>.
\<close>

definition big_constant_table :: dataframe where
  "big_constant_table =
     [(''K'', map IntV [9223372036854775809, 9223372036854775809, 9223372036854775809,
                        9223372036854775809, 9223372036854775809, 9223372036854775809]),
      (''seed'', map IntV [7, 7, 7, 7, 7, 7]),
      (''X'', map IntV [0, 0, 0, 1, 1, 1]),
      (''Y'', map IntV [0, 1, 2, 0, 1, 2]),
      (''V'', map IntV [5, 6, 7, 8, 9, 10])]"

definition big_constant_file :: csv_file where
  "big_constant_file = (\<lambda>skiprows. big_constant_table)"

text \<open>
  A BehaviorSpace table export: one title line and three lines of provenance, the line of
  world-dimension names and the line of their values, then the table of runs.  One of the
  swept model variables is called \<open>Metadata\<close> and keeps one value in every run.
\<close>

definition netlogo_head :: dataframe where
  "netlogo_head =
     [(''BehaviorSpace results (NetLogo 6.2.0)'',
       [StrV ''sweep.nlogo'', StrV ''experiment'', StrV ''11/03/2026 10:00:00:000 +0000'',
        StrV ''min-pxcor''])]"

definition netlogo_world :: dataframe where
  "netlogo_world =
     [(''min-pxcor'', [IntV (- 16), StrV ''[run number]'']),
      (''max-pxcor'', [IntV 16, StrV ''X'']),
      (''min-pycor'', [IntV (- 16), StrV ''Y'']),
      (''max-pycor'', [IntV 16, StrV ''Metadata''])]"

definition netlogo_runs :: dataframe where
  "netlogo_runs =
     [(''[run number]'', map IntV [1, 2, 3, 4, 5, 6]),
      (''X'', map IntV [0, 0, 0, 1, 1, 1]),
      (''Y'', map IntV [0, 1, 2, 0, 1, 2]),
      (''Metadata'', map StrV [''v1'', ''v1'', ''v1'', ''v1'', ''v1'', ''v1'']),
      (''count turtles'', map IntV [5, 6, 7, 8, 9, 10])]"

definition netlogo_file :: csv_file where
  "netlogo_file =
     (\<lambda>skiprows. if skiprows = 0 then netlogo_head
                 else if skiprows = 4 then netlogo_world
                 else if skiprows = 6 then netlogo_runs
                 else [])"

section \<open>The selection loop\<close>

lemma ncoord_stop: "\<not> p < n \<Longrightarrow> ncoord n p cs = 0"
  by (cases cs) simp_all

lemma hits_stop: "\<not> p < n \<Longrightarrow> \<not> running_product_hits n p cs"
  by (cases cs) simp_all

lemma nonconst_Cons:
  "nonconst ((col, value) # rest) =
     (if value = 1 then nonconst rest else (col, value) # nonconst rest)"
  by (simp add: nonconst_def)

lemma coord_select:
  "coord (select_columns n vc s) =
     coord s @ map fst (take (ncoord n (cumproduct s) (map snd (nonconst vc))) (nonconst vc))"
proof (induction vc arbitrary: s)
  case Nil
  then show ?case by (simp add: nonconst_def)
next
  case (Cons a vc)
  obtain col v where a: "a = (col, v)" by (cases a)
  show ?case
    unfolding a by (simp add: Cons.IH nonconst_Cons ncoord_stop Let_def)
qed

lemma var_select:
  "var (select_columns n vc s) =
     var s @ map fst (drop (ncoord n (cumproduct s) (map snd (nonconst vc))) (nonconst vc))"
proof (induction vc arbitrary: s)
  case Nil
  then show ?case by (simp add: nonconst_def)
next
  case (Cons a vc)
  obtain col v where a: "a = (col, v)" by (cases a)
  show ?case
    unfolding a by (simp add: Cons.IH nonconst_Cons ncoord_stop Let_def)
qed

lemma valid_select:
  "valid (select_columns n vc s) \<longleftrightarrow>
     valid s \<or> running_product_hits n (cumproduct s) (map snd (nonconst vc))"
proof (induction vc arbitrary: s)
  case Nil
  then show ?case by (simp add: nonconst_def)
next
  case (Cons a vc)
  obtain col v where a: "a = (col, v)" by (cases a)
  show ?case
    unfolding a by (auto simp add: Cons.IH nonconst_Cons hits_stop Let_def)
qed

lemma hits_product:
  "running_product_hits n p cs \<Longrightarrow> p * prod_list (take (ncoord n p cs) cs) = n"
proof (induction cs arbitrary: p)
  case Nil
  then show ?case by simp
next
  case (Cons c cs)
  from Cons.prems have lt: "p < n" by (simp split: if_splits)
  show ?case
  proof (cases "p * c = n")
    case True
    then show ?thesis using lt by (simp add: ncoord_stop)
  next
    case False
    with Cons.prems lt have "running_product_hits n (p * c) cs" by simp
    from Cons.IH [OF this] show ?thesis using lt by (simp add: mult.assoc)
  qed
qed

lemma coord_final:
  "coord (final_state sort_values df) =
     map fst (take (ncoord (len_df df) 1 (map snd (nonconst (sort_values (value_counts df)))))
                   (nonconst (sort_values (value_counts df))))"
  by (simp add: final_state_def coord_select init_state_def)

lemma var_final:
  "var (final_state sort_values df) =
     map fst (drop (ncoord (len_df df) 1 (map snd (nonconst (sort_values (value_counts df)))))
                   (nonconst (sort_values (value_counts df))))"
  by (simp add: final_state_def var_select init_state_def)

lemma valid_final:
  "valid (final_state sort_values df) \<longleftrightarrow>
     running_product_hits (len_df df) 1 (map snd (nonconst (sort_values (value_counts df))))"
  by (simp add: final_state_def valid_select init_state_def)


section \<open>What the call returns\<close>

lemma classify_invalid:
  "\<not> valid (final_state sort_values df) \<Longrightarrow>
     classify_and_build sort_values df = Inl (RuntimeError shape_message)"
  by (simp add: classify_and_build_def final_state_def Let_def)

lemma classify_shape_error_iff:
  "classify_and_build sort_values df = Inl (RuntimeError shape_message) \<longleftrightarrow>
     \<not> valid (final_state sort_values df)"
  by (auto simp add: classify_and_build_def final_state_def Let_def to_xarray_def
        split: sum.splits if_splits)

lemma classify_Inr:
  assumes "classify_and_build sort_values df = Inr ds"
  shows "valid (final_state sort_values df)"
    and "dims ds = coord (final_state sort_values df)"
    and "coords ds = map (\<lambda>c. (c, set (column_of df c))) (coord (final_state sort_values df))"
    and "data_vars ds =
           map (\<lambda>v. (v, zip (index_tuples df (coord (final_state sort_values df))) (column_of df v)))
               (var (final_state sort_values df))"
    and "attrs ds =
           map (\<lambda>c. (c, Scalar (loc_row0 df c)))
               (map fst (filter (\<lambda>c. snd c = 1) (sort_values (value_counts df))))"
    and "1 < length (coord (final_state sort_values df)) \<Longrightarrow>
           distinct (index_tuples df (coord (final_state sort_values df)))"
  using assms
  by (auto simp add: classify_and_build_def final_state_def Let_def to_xarray_def
        split: sum.splits if_splits)

lemma value_counts_lookup:
  assumes "distinct (map fst df)" and "(c, v) \<in> set (value_counts df)"
  shows "nunique (column_of df c) = v"
proof -
  from assms(2) obtain cells where "(c, cells) \<in> set df" and v: "v = nunique cells"
    by (auto simp add: value_counts_def)
  with assms(1) have "map_of df c = Some cells" by simp
  then show ?thesis by (simp add: column_of_def v)
qed

lemma ascending_order_set:
  "ascending_order vc sorted_vc \<Longrightarrow> set sorted_vc = set vc"
  by (auto simp add: ascending_order_def dest: mset_eq_setD)

lemma ascending_order_sort_key: "ascending_order vc (sort_key snd vc)"
  by (simp add: ascending_order_def)

lemma cards_of_taken:
  assumes "distinct (map fst df)" and "set xs \<subseteq> set (value_counts df)"
  shows "map (\<lambda>c. nunique (column_of df c)) (map fst xs) = map snd xs"
  using assms by (auto simp add: value_counts_lookup)

lemma hits_iff_product:
  "running_product_hits n p cs \<longleftrightarrow>
     0 < ncoord n p cs \<and> p * prod_list (take (ncoord n p cs) cs) = n"
proof (induction cs arbitrary: p)
  case Nil
  then show ?case by simp
next
  case (Cons c cs)
  show ?case
  proof (cases "p < n")
    case False
    then show ?thesis by simp
  next
    case lt: True
    show ?thesis
    proof (cases "p * c = n")
      case True
      then show ?thesis using lt by (simp add: ncoord_stop)
    next
      case False
      have "0 < ncoord n (p * c) cs" if "p * c * prod_list (take (ncoord n (p * c) cs) cs) = n"
        using that False by (cases "ncoord n (p * c) cs") simp_all
      then show ?thesis
        using lt False Cons.IH [of "p * c"] by (auto simp add: mult.assoc)
    qed
  qed
qed

lemma coord_final_empty:
  "coord (final_state sort_values df) = [] \<longleftrightarrow>
     ncoord (len_df df) 1 (map snd (nonconst (sort_values (value_counts df)))) = 0"
proof -
  have "ncoord n p cs \<le> length cs" for n p cs
    by (induction cs arbitrary: p) simp_all
  from this [of "len_df df" 1 "map snd (nonconst (sort_values (value_counts df)))"]
  show ?thesis
    by (auto simp add: coord_final)
qed

lemma classify_and_build_final:
  "classify_and_build sort_values df =
     (if \<not> valid (final_state sort_values df) then Inl (RuntimeError shape_message)
      else case to_xarray df (coord (final_state sort_values df)) (var (final_state sort_values df)) of
             Inl e \<Rightarrow> Inl e
           | Inr ds \<Rightarrow>
               if len_df df = 0 then Inl KeyError
               else Inr (ds\<lparr>attrs := map (\<lambda>c. (c, Scalar (loc_row0 df c)))
                                          (meta_cols sort_values df)\<rparr>))"
  by (simp only: classify_and_build_def final_state_def meta_cols_def Let_def)

section \<open>Reading the frame\<close>

lemma read_frame_None:
  "read_frame path None skiprows =
     (if path skiprows = [] then Inl EmptyDataError else Inr (path skiprows))"
  by (simp add: read_frame_def read_csv_def Let_def)

lemma read_frame_Some:
  "read_frame path (Some skip) skiprows =
     (if path skiprows = [] then Inl EmptyDataError
      else Inr (filter (\<lambda>c. fst c \<notin> set skip) (path skiprows)))"
proof -
  have "filter (\<lambda>c. fst c \<in> set (filter (\<lambda>c. c \<notin> set skip) (map fst df))) df
          = filter (\<lambda>c. fst c \<notin> set skip) df" for df :: dataframe
    by (rule filter_cong) auto
  then show ?thesis
    by (simp add: read_frame_def read_csv_def columns_def comp_def Let_def)
qed

lemma read_sweep_csv_frame:
  "read_frame path skipcols skiprows = Inr df \<Longrightarrow>
     read_sweep_csv sort_values path skipcols skiprows = classify_and_build sort_values df"
  by (simp add: read_sweep_csv_def)

section \<open>Properties of the classification\<close>

text \<open>
  C2.  \<open>read_sweep_csv\<close> raises the shape-mismatch error if and only if stepping through the
  non-constant columns in ascending-cardinality order, multiplying cardinalities while the
  running product is below the row count, never makes the running product equal to the row
  count; and when the call succeeds, the product of the cardinalities of the selected
  coordinate columns equals the row count.  The error is raised exactly when no coordinate
  column is selected or the product of the selected cardinalities differs from the row count.
\<close>

theorem shape_error_iff_running_product_misses:
  assumes "read_frame path skipcols skiprows = Inr df"
    and "wf_df df"
    and "ascending_order (value_counts df) (sort_values (value_counts df))"
  shows "(read_sweep_csv sort_values path skipcols skiprows = Inl (RuntimeError shape_message)
            \<longleftrightarrow> \<not> running_product_hits (len_df df) 1
                    (map snd (nonconst (sort_values (value_counts df)))))
         \<and> (\<forall>ds. read_sweep_csv sort_values path skipcols skiprows = Inr ds \<longrightarrow>
               prod_list (map (\<lambda>c. nunique (column_of df c)) (dims ds)) = len_df df)
         \<and> (read_sweep_csv sort_values path skipcols skiprows = Inl (RuntimeError shape_message)
            \<longleftrightarrow> coord (final_state sort_values df) = []
                 \<or> prod_list (map (\<lambda>c. nunique (column_of df c)) (coord (final_state sort_values df)))
                    \<noteq> len_df df)"
proof -
  define nc where "nc = nonconst (sort_values (value_counts df))"
  define k where "k = ncoord (len_df df) 1 (map snd nc)"
  note call = read_sweep_csv_frame [OF assms(1)]
  have names: "distinct (map fst df)"
    using assms(2) by (simp add: wf_df_def)
  have sub: "set (take k nc) \<subseteq> set (value_counts df)"
  proof -
    have "set (take k nc) \<subseteq> set nc" by (rule set_take_subset)
    also have "\<dots> \<subseteq> set (sort_values (value_counts df))" by (auto simp add: nc_def nonconst_def)
    also have "\<dots> = set (value_counts df)"
      using assms(3) by (simp add: ascending_order_set)
    finally show ?thesis .
  qed
  have cards: "map (\<lambda>c. nunique (column_of df c)) (coord (final_state sort_values df))
                 = take k (map snd nc)"
    using cards_of_taken [OF names sub] by (simp add: coord_final nc_def k_def take_map)
  have first: "read_sweep_csv sort_values path skipcols skiprows = Inl (RuntimeError shape_message)
      \<longleftrightarrow> \<not> running_product_hits (len_df df) 1 (map snd nc)"
    by (simp add: call classify_shape_error_iff valid_final nc_def)
  have second: "prod_list (map (\<lambda>c. nunique (column_of df c)) (dims ds)) = len_df df"
    if ok: "read_sweep_csv sort_values path skipcols skiprows = Inr ds" for ds
  proof -
    from ok have res: "classify_and_build sort_values df = Inr ds"
      by (simp add: call)
    have hit: "running_product_hits (len_df df) 1 (map snd nc)"
      using classify_Inr(1) [OF res] by (simp add: valid_final nc_def)
    show ?thesis
      using hits_product [OF hit] by (simp add: classify_Inr(2) [OF res] cards k_def)
  qed
  have third: "read_sweep_csv sort_values path skipcols skiprows = Inl (RuntimeError shape_message)
      \<longleftrightarrow> coord (final_state sort_values df) = []
           \<or> prod_list (map (\<lambda>c. nunique (column_of df c)) (coord (final_state sort_values df)))
              \<noteq> len_df df"
    unfolding first cards hits_iff_product [of "len_df df" 1 "map snd nc"]
    by (auto simp add: coord_final_empty nc_def k_def)
  show ?thesis
    using first second third unfolding nc_def by blast
qed

theorem shape_error_iff_running_product_misses_witness:
  "read_frame grid_file None 0 = Inr grid_3x4
   \<and> wf_df grid_3x4
   \<and> ascending_order (value_counts grid_3x4) (sort_key snd (value_counts grid_3x4))
   \<and> read_sweep_csv (sort_key snd) grid_file None 0 \<noteq> Inl (RuntimeError shape_message)
   \<and> running_product_hits 12 1 [3, 4, 12]
   \<and> (\<exists>ds. read_sweep_csv (sort_key snd) grid_file None 0 = Inr ds
          \<and> prod_list (map (\<lambda>c. nunique (column_of grid_3x4 c)) (dims ds)) = 12)"
proof -
  have frame: "read_frame grid_file None 0 = Inr grid_3x4"
    by code_simp
  have wf: "wf_df grid_3x4"
    by code_simp
  have asc: "ascending_order (value_counts grid_3x4) (sort_key snd (value_counts grid_3x4))"
    by (rule ascending_order_sort_key)
  have cards: "map snd (nonconst (sort_key snd (value_counts grid_3x4))) = [3, 4, 12]"
    by code_simp
  have rows: "len_df grid_3x4 = 12"
    by code_simp
  have hit: "running_product_hits 12 1 [3, 4, 12]"
    by simp
  have "\<not> isl (read_sweep_csv (sort_key snd) grid_file None 0)"
    by code_simp
  then obtain ds where ds: "read_sweep_csv (sort_key snd) grid_file None 0 = Inr ds"
    by (cases "read_sweep_csv (sort_key snd) grid_file None 0") auto
  show ?thesis
    using shape_error_iff_running_product_misses
            [where sort_values = "sort_key snd" and path = grid_file and skipcols = None
               and skiprows = 0 and df = grid_3x4, OF frame wf asc]
          frame wf asc hit ds
    unfolding cards rows by simp
qed

lemma nunique_single_row: "length cells = 1 \<Longrightarrow> nunique cells = 1"
  by (cases cells) (simp_all add: nunique_def)

lemma all_constant_invalid:
  assumes "ascending_order (value_counts df) (sort_values (value_counts df))"
    and "list_all (\<lambda>c. nunique (snd c) = 1) df"
  shows "\<not> valid (final_state sort_values df)"
proof -
  have "snd c = 1" if "c \<in> set (sort_values (value_counts df))" for c
  proof -
    from that assms(1) have "c \<in> set (value_counts df)"
      by (simp add: ascending_order_set)
    with assms(2) show ?thesis
      by (auto simp add: value_counts_def list_all_iff)
  qed
  then have "nonconst (sort_values (value_counts df)) = []"
    by (simp add: nonconst_def)
  then show ?thesis
    by (simp add: valid_final)
qed

text \<open>
  C10.  On a table all of whose columns have cardinality 1, and so on every table of one row,
  \<open>read_sweep_csv\<close> raises the shape-mismatch error, although a row count of 1 equals the
  empty product of coordinate cardinalities.
\<close>

theorem all_constant_columns_raise:
  assumes "read_frame path skipcols skiprows = Inr df"
    and "wf_df df"
    and "ascending_order (value_counts df) (sort_values (value_counts df))"
    and "list_all (\<lambda>c. nunique (snd c) = 1) df \<or> len_df df = 1"
  shows "read_sweep_csv sort_values path skipcols skiprows = Inl (RuntimeError shape_message)"
proof -
  have "list_all (\<lambda>c. nunique (snd c) = 1) df"
  proof (cases "len_df df = 1")
    case True
    with assms(2) show ?thesis
      by (auto simp add: wf_df_def list_all_iff nunique_single_row)
  next
    case False
    with assms(4) show ?thesis by simp
  qed
  with assms(3) have "\<not> valid (final_state sort_values df)"
    by (rule all_constant_invalid)
  then show ?thesis
    by (simp add: read_sweep_csv_frame [OF assms(1)] classify_invalid)
qed

theorem all_constant_columns_raise_witness:
  "read_frame single_row_file None 0 = Inr single_row
   \<and> wf_df single_row
   \<and> ascending_order (value_counts single_row) (sort_key snd (value_counts single_row))
   \<and> len_df single_row = 1
   \<and> prod_list (map snd ([] :: (string \<times> nat) list)) = len_df single_row
   \<and> read_sweep_csv (sort_key snd) single_row_file None 0 = Inl (RuntimeError shape_message)"
proof -
  have frame: "read_frame single_row_file None 0 = Inr single_row"
    by code_simp
  have wf: "wf_df single_row"
    by code_simp
  have asc: "ascending_order (value_counts single_row) (sort_key snd (value_counts single_row))"
    by (rule ascending_order_sort_key)
  have rows: "len_df single_row = 1"
    by code_simp
  show ?thesis
    using all_constant_columns_raise
            [where sort_values = "sort_key snd" and path = single_row_file and skipcols = None
               and skiprows = 0 and df = single_row, OF frame wf asc disjI2 [OF rows]]
          frame wf asc rows
    by simp
qed

text \<open>
  C4 (as amended).  Whenever classification fails, the error is a \<open>RuntimeError\<close> with one
  fixed message, whatever the table: it says that the frame does not have the right number of
  columns to create a cross product and suggests dropping a column with \<open>skipcols\<close>.
\<close>

theorem shape_error_has_fixed_message:
  assumes "read_frame path skipcols skiprows = Inr df"
    and "\<not> valid (final_state sort_values df)"
  shows "read_sweep_csv sort_values path skipcols skiprows = Inl (RuntimeError shape_message)
         \<and> sublist ''to create a cross product'' shape_message
         \<and> sublist ''Try dropping a column with the skipcols argument'' shape_message"
proof -
  have "sublist ''to create a cross product'' shape_message"
    by code_simp
  moreover have "sublist ''Try dropping a column with the skipcols argument'' shape_message"
    by code_simp
  ultimately show ?thesis
    using assms(2) by (simp add: read_sweep_csv_frame [OF assms(1)] classify_invalid)
qed

theorem shape_error_has_fixed_message_witness:
  "read_frame short_file None 0 = Inr short_table
   \<and> \<not> valid (final_state (sort_key snd) short_table)
   \<and> read_sweep_csv (sort_key snd) short_file None 0 = Inl (RuntimeError shape_message)
   \<and> sublist ''to create a cross product'' shape_message
   \<and> sublist ''Try dropping a column with the skipcols argument'' shape_message"
proof -
  have frame: "read_frame short_file None 0 = Inr short_table"
    by code_simp
  have bad: "\<not> valid (final_state (sort_key snd) short_table)"
    by code_simp
  show ?thesis
    using shape_error_has_fixed_message
            [where sort_values = "sort_key snd" and path = short_file and skipcols = None
               and skiprows = 0 and df = short_table, OF frame bad]
          frame bad
    by simp
qed

text \<open>
  The claim as written fails on a table of 3 rows whose only column \<open>X\<close> has 2 distinct
  cells: the message holds neither the row count, nor the column, nor its cardinality.
\<close>

theorem shape_error_context_counterexample:
  "read_sweep_csv (sort_key snd) short_file None 0 = Inl (RuntimeError shape_message)
   \<and> read_frame short_file None 0 = Inr short_table
   \<and> len_df short_table = 3
   \<and> value_counts short_table = [(''X'', 2)]
   \<and> \<not> sublist ''3'' shape_message
   \<and> \<not> sublist ''X'' shape_message
   \<and> \<not> sublist ''2'' shape_message"
  by code_simp

text \<open>
  C7 (as amended).  On a file that has a column other than \<open>extra\<close>, reading with
  \<open>skipcols={'extra'}\<close> gives the result of reading the same file from which the column
  \<open>extra\<close> has been removed beforehand.
\<close>

theorem skipcols_same_as_removed_column:
  assumes "\<exists>c\<in>set (columns (path skiprows)). c \<noteq> ''extra''"
  shows "read_sweep_csv sort_values path (Some [''extra'']) skiprows
           = read_sweep_csv sort_values (remove_column ''extra'' path) None skiprows"
proof -
  from assms have "filter (\<lambda>c. fst c \<noteq> ''extra'') (path skiprows) \<noteq> []"
    by (auto simp add: columns_def filter_empty_conv)
  moreover from assms have "path skiprows \<noteq> []"
    by (auto simp add: columns_def)
  ultimately show ?thesis
    by (simp add: read_sweep_csv_def read_frame_Some read_frame_None remove_column_def)
qed

theorem skipcols_same_as_removed_column_witness:
  "(\<exists>c\<in>set (columns (extra_file 0)). c \<noteq> ''extra'')
   \<and> ''extra'' \<in> set (columns (extra_file 0))
   \<and> read_sweep_csv (sort_key snd) extra_file (Some [''extra'']) 0
       = read_sweep_csv (sort_key snd) (remove_column ''extra'' extra_file) None 0
   \<and> \<not> isl (read_sweep_csv (sort_key snd) extra_file (Some [''extra'']) 0)"
proof -
  have cols: "columns (extra_file 0) = [''extra'', ''V'', ''B'', ''A'']"
    by code_simp
  have other: "\<exists>c\<in>set (columns (extra_file 0)). c \<noteq> ''extra''"
    unfolding cols by simp
  have ok: "\<not> isl (read_sweep_csv (sort_key snd) extra_file (Some [''extra'']) 0)"
    by code_simp
  show ?thesis
    using skipcols_same_as_removed_column
            [where sort_values = "sort_key snd" and path = extra_file and skiprows = 0, OF other]
          other ok
    by (simp add: cols)
qed

text \<open>
  The claim as written fails on a file whose only column is \<open>extra\<close>: with \<open>skipcols\<close>
  the frame is read without columns and the shape-mismatch error is raised, while the file
  without the column has nothing left to parse and the reader refuses it.
\<close>

theorem skipcols_only_column_counterexample:
  "columns (only_extra_file 0) = [''extra'']
   \<and> read_sweep_csv (sort_key snd) only_extra_file (Some [''extra'']) 0
       = Inl (RuntimeError shape_message)
   \<and> read_sweep_csv (sort_key snd) (remove_column ''extra'' only_extra_file) None 0
       = Inl EmptyDataError"
  by code_simp

lemma ascending_order_distinct_names:
  assumes "distinct (map fst df)"
    and "ascending_order (value_counts df) sorted_vc"
  shows "distinct (map fst sorted_vc)"
proof -
  have "map fst (value_counts df) = map fst df"
    by (simp add: value_counts_def comp_def)
  moreover have "mset (map fst sorted_vc) = mset (map fst (value_counts df))"
  proof -
    from assms(2) have "image_mset fst (mset sorted_vc) = image_mset fst (mset (value_counts df))"
      by (simp add: ascending_order_def)
    then show ?thesis by simp
  qed
  ultimately show ?thesis
    using assms(1) by (metis mset_eq_imp_distinct_iff)
qed

lemma distinct_of_names: "distinct (map fst xs) \<Longrightarrow> distinct xs"
  by (simp add: distinct_map)

lemma valid_gives_factoring_subset:
  assumes names: "distinct (map fst df)"
    and asc: "ascending_order (value_counts df) (sort_values (value_counts df))"
    and ok: "valid (final_state sort_values df)"
  shows "\<exists>S. S \<subseteq> set (value_counts df) \<and> prod snd S = len_df df"
proof -
  define nc where "nc = nonconst (sort_values (value_counts df))"
  define k where "k = ncoord (len_df df) 1 (map snd nc)"
  have "distinct (map fst (sort_values (value_counts df)))"
    using names asc by (rule ascending_order_distinct_names)
  then have "distinct (sort_values (value_counts df))"
    by (rule distinct_of_names)
  then have d: "distinct (take k nc)"
    by (simp add: nc_def nonconst_def)
  have "set (take k nc) \<subseteq> set nc" by (rule set_take_subset)
  also have "\<dots> \<subseteq> set (sort_values (value_counts df))" by (auto simp add: nc_def nonconst_def)
  also have "\<dots> = set (value_counts df)"
    using asc by (simp add: ascending_order_set)
  finally have sub: "set (take k nc) \<subseteq> set (value_counts df)" .
  from ok have "running_product_hits (len_df df) 1 (map snd nc)"
    by (simp add: valid_final nc_def)
  from hits_product [OF this] have "prod_list (map snd (take k nc)) = len_df df"
    by (simp add: k_def take_map)
  with d have "prod snd (set (take k nc)) = len_df df"
    by (simp add: prod.distinct_set_conv_list)
  with sub show ?thesis by blast
qed

text \<open>
  C3 (as amended).  If no subset of the retained columns has a cardinality product equal to
  the row count, \<open>read_sweep_csv\<close> fails with the shape-mismatch error.  The converse is
  left out: the call may fail although such a subset exists.
\<close>

theorem no_factoring_subset_raises:
  assumes "read_frame path skipcols skiprows = Inr df"
    and "wf_df df"
    and "ascending_order (value_counts df) (sort_values (value_counts df))"
    and "\<not> (\<exists>S. S \<subseteq> set (value_counts df) \<and> prod snd S = len_df df)"
  shows "read_sweep_csv sort_values path skipcols skiprows = Inl (RuntimeError shape_message)"
proof -
  have "distinct (map fst df)"
    using assms(2) by (simp add: wf_df_def)
  from valid_gives_factoring_subset
         [where sort_values = sort_values and df = df, OF this assms(3)] assms(4)
  have "\<not> valid (final_state sort_values df)"
    by blast
  then show ?thesis
    by (simp add: read_sweep_csv_frame [OF assms(1)] classify_invalid)
qed

theorem no_factoring_subset_raises_witness:
  "read_frame short_file None 0 = Inr short_table
   \<and> wf_df short_table
   \<and> ascending_order (value_counts short_table) (sort_key snd (value_counts short_table))
   \<and> \<not> (\<exists>S. S \<subseteq> set (value_counts short_table) \<and> prod snd S = len_df short_table)
   \<and> read_sweep_csv (sort_key snd) short_file None 0 = Inl (RuntimeError shape_message)"
proof -
  have frame: "read_frame short_file None 0 = Inr short_table"
    by code_simp
  have wf: "wf_df short_table"
    by code_simp
  have asc: "ascending_order (value_counts short_table) (sort_key snd (value_counts short_table))"
    by (rule ascending_order_sort_key)
  have vc: "value_counts short_table = [(''X'', 2)]"
    by code_simp
  have rows: "len_df short_table = 3"
    by code_simp
  have none: "\<not> (\<exists>S. S \<subseteq> set (value_counts short_table) \<and> prod snd S = len_df short_table)"
    unfolding vc rows by (auto simp add: subset_singleton_iff)
  show ?thesis
    using no_factoring_subset_raises
            [where sort_values = "sort_key snd" and path = short_file and skipcols = None
               and skiprows = 0 and df = short_table, OF frame wf asc none]
          frame wf asc none
    by simp
qed

text \<open>
  The claim as written fails on three rows with a column \<open>X\<close> of 2 distinct cells and a
  column \<open>Y\<close> of 3: the cardinality of \<open>Y\<close> alone equals the row count, yet the loop takes
  \<open>X\<close> first, reaches 2 and then 6, and the call fails.
\<close>

theorem factoring_subset_counterexample:
  "read_frame three_rows_file None 0 = Inr three_rows
   \<and> {(''Y'', 3)} \<subseteq> set (value_counts three_rows)
   \<and> prod snd {(''Y'', 3 :: nat)} = len_df three_rows
   \<and> read_sweep_csv (sort_key snd) three_rows_file None 0 = Inl (RuntimeError shape_message)"
proof -
  have "read_frame three_rows_file None 0 = Inr three_rows"
    by code_simp
  moreover have "value_counts three_rows = [(''X'', 2), (''Y'', 3)]"
    by code_simp
  moreover have "len_df three_rows = 3"
    by code_simp
  moreover have "read_sweep_csv (sort_key snd) three_rows_file None 0
                   = Inl (RuntimeError shape_message)"
    by code_simp
  ultimately show ?thesis by simp
qed

lemma names_of_split_disjoint:
  assumes "distinct (map fst (xs @ ys))"
  shows "set (map fst xs) \<inter> set (map fst ys) = {}"
  using assms by auto

lemma names_of_filter_disjoint:
  assumes "distinct (map fst xs)"
  shows "set (map fst (filter P xs)) \<inter> set (map fst (filter (\<lambda>x. \<not> P x) xs)) = {}"
proof -
  from assms have "inj_on fst (set xs)"
    by (simp add: distinct_map)
  then have "fst ` {x \<in> set xs. P x} \<inter> fst ` {x \<in> set xs. \<not> P x} = {}"
    by (auto dest: inj_onD)
  then show ?thesis by simp
qed

lemma roles_partition:
  assumes names: "distinct (map fst df)"
    and asc: "ascending_order (value_counts df) (sort_values (value_counts df))"
  shows "set (coord (final_state sort_values df)) \<inter> set (var (final_state sort_values df)) = {}"
    and "set (coord (final_state sort_values df)) \<inter> set (meta_cols sort_values df) = {}"
    and "set (var (final_state sort_values df)) \<inter> set (meta_cols sort_values df) = {}"
    and "set (coord (final_state sort_values df)) \<union> set (var (final_state sort_values df))
           \<union> set (meta_cols sort_values df) = set (columns df)"
proof -
  define sv where "sv = sort_values (value_counts df)"
  define nc where "nc = nonconst sv"
  define k where "k = ncoord (len_df df) 1 (map snd nc)"
  have c: "coord (final_state sort_values df) = map fst (take k nc)"
    by (simp add: coord_final nc_def k_def sv_def)
  have v: "var (final_state sort_values df) = map fst (drop k nc)"
    by (simp add: var_final nc_def k_def sv_def)
  have m: "meta_cols sort_values df = map fst (filter (\<lambda>c. \<not> snd c \<noteq> 1) sv)"
    by (simp add: meta_cols_def sv_def)
  have nc: "nc = filter (\<lambda>c. snd c \<noteq> 1) sv"
    by (simp add: nc_def nonconst_def)
  have dsv: "distinct (map fst sv)"
    using names asc unfolding sv_def by (rule ascending_order_distinct_names)
  then have "distinct (map fst nc)"
    by (simp add: nc distinct_map_filter)
  then have "distinct (map fst (take k nc @ drop k nc))"
    by simp
  then have cv: "set (map fst (take k nc)) \<inter> set (map fst (drop k nc)) = {}"
    by (rule names_of_split_disjoint)
  have nm: "set (map fst nc) \<inter> set (map fst (filter (\<lambda>c. \<not> snd c \<noteq> 1) sv)) = {}"
    unfolding nc using dsv by (rule names_of_filter_disjoint)
  have split: "set (map fst (take k nc)) \<union> set (map fst (drop k nc)) = set (map fst nc)"
  proof -
    have "set (map fst (take k nc @ drop k nc)) = set (map fst nc)" by simp
    then show ?thesis by (simp only: map_append set_append)
  qed
  have all: "set (map fst nc) \<union> set (map fst (filter (\<lambda>c. \<not> snd c \<noteq> 1) sv)) = set (map fst sv)"
    unfolding nc by auto
  have cols: "set (map fst sv) = set (columns df)"
  proof -
    have "set sv = set (value_counts df)"
      using asc by (simp add: ascending_order_set sv_def)
    then have "fst ` set sv = fst ` set (value_counts df)" by simp
    then show ?thesis by (simp add: columns_def value_counts_def image_image)
  qed
  show "set (coord (final_state sort_values df)) \<inter> set (var (final_state sort_values df)) = {}"
    using cv by (simp only: c v)
  show "set (coord (final_state sort_values df)) \<inter> set (meta_cols sort_values df) = {}"
    using nm split unfolding c m by blast
  show "set (var (final_state sort_values df)) \<inter> set (meta_cols sort_values df) = {}"
    using nm split unfolding v m by blast
  show "set (coord (final_state sort_values df)) \<union> set (var (final_state sort_values df))
           \<union> set (meta_cols sort_values df) = set (columns df)"
    using split all cols unfolding c v m by simp
qed

lemma classify_Inr_names:
  assumes "classify_and_build sort_values df = Inr ds"
  shows "dims ds = coord (final_state sort_values df)"
    and "map fst (data_vars ds) = var (final_state sort_values df)"
    and "map fst (attrs ds) = meta_cols sort_values df"
proof -
  show "dims ds = coord (final_state sort_values df)"
    by (rule classify_Inr(2) [OF assms])
  show "map fst (data_vars ds) = var (final_state sort_values df)"
    by (simp add: classify_Inr(4) [OF assms] comp_def)
  show "map fst (attrs ds) = meta_cols sort_values df"
    by (simp add: classify_Inr(5) [OF assms] comp_def meta_cols_def)
qed

text \<open>
  C9.  When classification succeeds, the coordinate, variable and constant columns are
  pairwise disjoint and together are exactly the retained columns; the dimensions, layers and
  attributes of a dataset that is returned are named by them.
\<close>

theorem roles_partition_retained_columns:
  assumes "read_frame path skipcols skiprows = Inr df"
    and "wf_df df"
    and "ascending_order (value_counts df) (sort_values (value_counts df))"
    and "valid (final_state sort_values df)"
  shows "set (coord (final_state sort_values df)) \<inter> set (var (final_state sort_values df)) = {}
         \<and> set (coord (final_state sort_values df)) \<inter> set (meta_cols sort_values df) = {}
         \<and> set (var (final_state sort_values df)) \<inter> set (meta_cols sort_values df) = {}
         \<and> set (coord (final_state sort_values df)) \<union> set (var (final_state sort_values df))
           \<union> set (meta_cols sort_values df) = set (columns df)
         \<and> (\<forall>ds. read_sweep_csv sort_values path skipcols skiprows = Inr ds \<longrightarrow>
               dims ds = coord (final_state sort_values df)
               \<and> map fst (data_vars ds) = var (final_state sort_values df)
               \<and> map fst (attrs ds) = meta_cols sort_values df)"
proof -
  have names: "distinct (map fst df)"
    using assms(2) by (simp add: wf_df_def)
  note part = roles_partition [where sort_values = sort_values and df = df, OF names assms(3)]
  have named: "dims ds = coord (final_state sort_values df)
               \<and> map fst (data_vars ds) = var (final_state sort_values df)
               \<and> map fst (attrs ds) = meta_cols sort_values df"
    if "read_sweep_csv sort_values path skipcols skiprows = Inr ds" for ds
  proof -
    from that have "classify_and_build sort_values df = Inr ds"
      by (simp add: read_sweep_csv_frame [OF assms(1)])
    then show ?thesis
      by (simp add: classify_Inr_names)
  qed
  show ?thesis
    using part named by (intro conjI allI impI) (assumption | blast)+
qed

theorem roles_partition_retained_columns_witness:
  "read_frame grid_file None 0 = Inr grid_3x4
   \<and> wf_df grid_3x4
   \<and> ascending_order (value_counts grid_3x4) (sort_key snd (value_counts grid_3x4))
   \<and> valid (final_state (sort_key snd) grid_3x4)
   \<and> coord (final_state (sort_key snd) grid_3x4) = [''A'', ''B'']
   \<and> var (final_state (sort_key snd) grid_3x4) = [''V'']
   \<and> meta_cols (sort_key snd) grid_3x4 = [''model'']
   \<and> set [''A'', ''B''] \<union> set [''V''] \<union> set [''model''] = set (columns grid_3x4)
   \<and> (\<exists>ds. read_sweep_csv (sort_key snd) grid_file None 0 = Inr ds
          \<and> dims ds = [''A'', ''B''] \<and> map fst (data_vars ds) = [''V'']
          \<and> map fst (attrs ds) = [''model''])"
proof -
  have frame: "read_frame grid_file None 0 = Inr grid_3x4"
    by code_simp
  have wf: "wf_df grid_3x4"
    by code_simp
  have asc: "ascending_order (value_counts grid_3x4) (sort_key snd (value_counts grid_3x4))"
    by (rule ascending_order_sort_key)
  have ok: "valid (final_state (sort_key snd) grid_3x4)"
    by code_simp
  have c: "coord (final_state (sort_key snd) grid_3x4) = [''A'', ''B'']"
    by code_simp
  have v: "var (final_state (sort_key snd) grid_3x4) = [''V'']"
    by code_simp
  have m: "meta_cols (sort_key snd) grid_3x4 = [''model'']"
    by code_simp
  have "\<not> isl (read_sweep_csv (sort_key snd) grid_file None 0)"
    by code_simp
  then obtain ds where ds: "read_sweep_csv (sort_key snd) grid_file None 0 = Inr ds"
    by (cases "read_sweep_csv (sort_key snd) grid_file None 0") auto
  show ?thesis
    using roles_partition_retained_columns
            [where sort_values = "sort_key snd" and path = grid_file and skipcols = None
               and skiprows = 0 and df = grid_3x4, OF frame wf asc ok]
          frame wf asc ok ds
    unfolding c v m by simp
qed

lemma column_of_member:
  assumes "distinct (map fst df)" and "(name, cells) \<in> set df"
  shows "column_of df name = cells"
  using assms by (simp add: column_of_def)

lemma constant_in_meta_cols:
  assumes asc: "ascending_order (value_counts df) (sort_values (value_counts df))"
    and mem: "(name, cells) \<in> set df"
    and one: "nunique cells = 1"
  shows "name \<in> set (meta_cols sort_values df)"
proof -
  from mem one have "(name, 1) \<in> set (value_counts df)"
    by (force simp add: value_counts_def)
  with asc have "(name, 1) \<in> set (sort_values (value_counts df))"
    by (simp add: ascending_order_set)
  then have "(name, 1) \<in> set (filter (\<lambda>c. snd c = 1) (sort_values (value_counts df)))"
    by simp
  then have "fst (name, 1 :: nat) \<in> fst ` set (filter (\<lambda>c. snd c = 1) (sort_values (value_counts df)))"
    by (rule imageI)
  then show ?thesis
    by (simp add: meta_cols_def)
qed

lemma astype_exact: "t \<noteq> Float64 \<Longrightarrow> astype t c = c"
  by (cases t) simp_all

lemma constant_column_attribute:
  assumes wf: "wf_df df"
    and asc: "ascending_order (value_counts df) (sort_values (value_counts df))"
    and pos: "i < length df" "df ! i = (name, cells)"
    and one: "nunique cells = 1"
  shows "name \<notin> set (coord (final_state sort_values df))"
    and "name \<notin> set (var (final_state sort_values df))"
    and "classify_and_build sort_values df = Inr ds \<Longrightarrow>
           name \<notin> set (dims ds) \<and> name \<notin> set (map fst (data_vars ds))
           \<and> map_of (attrs ds) name = Some (Scalar (astype (common_dtype df) (cells ! 0)))"
    and "classify_and_build sort_values df = Inr ds \<Longrightarrow> common_dtype df \<noteq> Float64 \<Longrightarrow>
           map_of (attrs ds) name = Some (Scalar (cells ! 0))"
proof -
  have names: "distinct (map fst df)"
    using wf by (simp add: wf_df_def)
  have mem: "(name, cells) \<in> set df"
    using pos by (metis nth_mem)
  have meta: "name \<in> set (meta_cols sort_values df)"
    using asc mem one by (rule constant_in_meta_cols)
  note part = roles_partition [where sort_values = sort_values and df = df, OF names asc]
  show nc: "name \<notin> set (coord (final_state sort_values df))"
    using part(2) meta by blast
  show nv: "name \<notin> set (var (final_state sort_values df))"
    using part(3) meta by blast
  show third: "name \<notin> set (dims ds) \<and> name \<notin> set (map fst (data_vars ds))
           \<and> map_of (attrs ds) name = Some (Scalar (astype (common_dtype df) (cells ! 0)))"
    if res: "classify_and_build sort_values df = Inr ds"
  proof -
    have "attrs ds = map (\<lambda>c. (c, Scalar (loc_row0 df c))) (meta_cols sort_values df)"
      using classify_Inr(5) [OF res] by (simp add: meta_cols_def)
    then have "map_of (attrs ds) name = Some (Scalar (loc_row0 df name))"
      using meta by (simp add: map_of_map_restrict)
    then have "map_of (attrs ds) name = Some (Scalar (astype (common_dtype df) (cells ! 0)))"
      by (simp add: loc_row0_def column_of_member [OF names mem])
    then show ?thesis
      using nc nv classify_Inr_names(1,2) [OF res] by simp
  qed
  show "map_of (attrs ds) name = Some (Scalar (cells ! 0))"
    if "classify_and_build sort_values df = Inr ds" and "common_dtype df \<noteq> Float64"
    using third [OF that(1)] that(2) by (simp add: astype_exact)
qed

text \<open>
  C5.  On six runs with the constant columns \<open>K\<close>, whose cell is \<open>2^63 + 1\<close>, and
  \<open>seed\<close>, whose cell is 7, both columns are kept out of the coordinates and the variables
  and become attributes, but the row from which line 76 takes their values is cast to
  \<open>float64\<close>: the attribute \<open>K\<close> is the double \<open>2^63\<close>, not the cell of row 0.
\<close>

theorem constant_metadata_is_cast_to_row_dtype:
  "read_frame big_constant_file None 0 = Inr big_constant_table
   \<and> nunique (column_of big_constant_table ''K'') = 1
   \<and> column_of big_constant_table ''K'' ! 0 = IntV 9223372036854775809
   \<and> common_dtype big_constant_table = Float64
   \<and> (\<exists>ds. read_sweep_csv (sort_key snd) big_constant_file None 0 = Inr ds
          \<and> dims ds = [''X'', ''Y'']
          \<and> map fst (data_vars ds) = [''V'']
          \<and> map_of (attrs ds) ''K'' = Some (Scalar (FloatV 9223372036854775808))
          \<and> map_of (attrs ds) ''seed'' = Some (Scalar (FloatV 7)))"
proof -
  have "\<not> isl (read_sweep_csv (sort_key snd) big_constant_file None 0)"
    by code_simp
  then obtain ds where ds: "read_sweep_csv (sort_key snd) big_constant_file None 0 = Inr ds"
    by (cases "read_sweep_csv (sort_key snd) big_constant_file None 0") auto
  have "dims (projr (read_sweep_csv (sort_key snd) big_constant_file None 0)) = [''X'', ''Y'']"
    by code_simp
  moreover have "map fst (data_vars (projr (read_sweep_csv (sort_key snd) big_constant_file None 0)))
                   = [''V'']"
    by code_simp
  moreover have "map_of (attrs (projr (read_sweep_csv (sort_key snd) big_constant_file None 0))) ''K''
                   = Some (Scalar (FloatV 9223372036854775808))"
    by code_simp
  moreover have "map_of (attrs (projr (read_sweep_csv (sort_key snd) big_constant_file None 0))) ''seed''
                   = Some (Scalar (FloatV 7))"
    by code_simp
  ultimately have res: "dims ds = [''X'', ''Y'']" "map fst (data_vars ds) = [''V'']"
      "map_of (attrs ds) ''K'' = Some (Scalar (FloatV 9223372036854775808))"
      "map_of (attrs ds) ''seed'' = Some (Scalar (FloatV 7))"
    by (simp_all add: ds)
  have frame: "read_frame big_constant_file None 0 = Inr big_constant_table"
    by code_simp
  have one: "nunique (column_of big_constant_table ''K'') = 1"
    by code_simp
  have row0: "column_of big_constant_table ''K'' ! 0 = IntV 9223372036854775809"
    by code_simp
  have dt: "common_dtype big_constant_table = Float64"
    by code_simp
  from ds res have "\<exists>ds. read_sweep_csv (sort_key snd) big_constant_file None 0 = Inr ds
          \<and> dims ds = [''X'', ''Y'']
          \<and> map fst (data_vars ds) = [''V'']
          \<and> map_of (attrs ds) ''K'' = Some (Scalar (FloatV 9223372036854775808))
          \<and> map_of (attrs ds) ''seed'' = Some (Scalar (FloatV 7))"
    by (intro exI [of _ ds] conjI)
  with frame one row0 dt show ?thesis
    by (intro conjI)
qed


lemma filter_key_singleton:
  assumes "distinct (map f zs)" and "k \<in> set zs"
  shows "filter (\<lambda>x. f k = f x) zs = [k]"
  using assms
proof (induction zs)
  case Nil
  then show ?case by simp
next
  case (Cons z zs)
  show ?case
  proof (cases "k = z")
    case True
    have "filter (\<lambda>x. f z = f x) zs = []"
      using Cons.prems(1) by (auto simp add: filter_empty_conv)
    with True show ?thesis by simp
  next
    case False
    with Cons.prems have mem: "k \<in> set zs"
      by simp
    from Cons.prems(1) have rest: "distinct (map f zs)" and fresh: "f z \<notin> f ` set zs"
      by simp_all
    from mem fresh have "f k \<noteq> f z"
      by (metis imageI)
    with Cons.IH [OF rest mem] show ?thesis by simp
  qed
qed

lemma ascending_order_unique:
  assumes asc: "ascending_order vc sorted_vc"
    and keys: "distinct (map snd vc)"
  shows "sorted_vc = sort_key snd vc"
proof -
  from asc have m: "mset sorted_vc = mset vc" and s: "sorted (map snd sorted_vc)"
    by (simp_all add: ascending_order_def)
  have "mset (map snd sorted_vc) = mset (map snd vc)"
  proof -
    from m have "image_mset snd (mset sorted_vc) = image_mset snd (mset vc)" by simp
    then show ?thesis by simp
  qed
  with keys have keys': "distinct (map snd sorted_vc)"
    by (metis mset_eq_imp_distinct_iff)
  have "filter (\<lambda>x. snd k = snd x) sorted_vc = filter (\<lambda>x. snd k = snd x) vc"
    if "k \<in> set sorted_vc" for k
  proof -
    from that m have "k \<in> set vc" by (metis mset_eq_setD)
    with keys have "filter (\<lambda>x. snd k = snd x) vc = [k]"
      by (rule filter_key_singleton)
    moreover from keys' that have "filter (\<lambda>x. snd k = snd x) sorted_vc = [k]"
      by (rule filter_key_singleton)
    ultimately show ?thesis by simp
  qed
  with m have "sort_key snd vc = sorted_vc"
    using s by (rule properties_for_sort_key)
  then show ?thesis by simp
qed








lemma index_tuples_pair:
  assumes "column_of df a = as" and "column_of df b = bs"
    and "length as = len_df df" and "length bs = len_df df"
  shows "index_tuples df [a, b] = map (\<lambda>p. [fst p, snd p]) (zip as bs)"
  using assms by (intro nth_equalityI) (simp_all add: index_tuples_def)

lemma distinct_pair_tuples:
  "distinct (zip as bs) \<Longrightarrow> distinct (map (\<lambda>p. [fst p, snd p]) (zip as bs))"
  by (simp add: distinct_map inj_on_def prod_eq_iff)

lemma grid_covered:
  assumes once: "distinct (zip as bs)"
    and len: "length as = n" "length bs = n"
    and full: "nunique as * nunique bs = n"
    and x: "x \<in> set as" and y: "y \<in> set bs"
  shows "\<exists>i<n. as ! i = x \<and> bs ! i = y"
proof -
  have "card (set (zip as bs)) = n"
    using once len by (simp add: distinct_card)
  moreover have "card (set as \<times> set bs) = n"
    using full by (simp add: card_cartesian_product nunique_def length_remdups_card_conv)
  moreover have "set (zip as bs) \<subseteq> set as \<times> set bs"
    by (auto dest: set_zip_leftD set_zip_rightD)
  ultimately have "set (zip as bs) = set as \<times> set bs"
    by (simp add: card_subset_eq)
  with x y have "(x, y) \<in> set (zip as bs)" by simp
  then obtain i where "i < length (zip as bs)" and "zip as bs ! i = (x, y)"
    by (auto simp add: in_set_conv_nth)
  with len show ?thesis by auto
qed

lemma three_columns_order:
  assumes asc: "ascending_order vc sorted_vc"
    and cols: "mset vc = {#(a, 3), (b, 4), (v, k)#}"
    and big: "4 < k"
  shows "sorted_vc = [(a, 3), (b, 4), (v, k)]"
proof -
  have "mset (map snd vc) = {#3, 4, k#}"
  proof -
    from cols have "image_mset snd (mset vc) = image_mset snd {#(a, 3), (b, 4), (v, k)#}"
      by simp
    then show ?thesis by simp
  qed
  then have "mset (map snd vc) = mset [3, 4, k]" by simp
  moreover have "distinct [3, 4, k]" using big by simp
  ultimately have keys: "distinct (map snd vc)"
    by (metis mset_eq_imp_distinct_iff)
  have "ascending_order vc [(a, 3), (b, 4), (v, k)]"
    using cols big by (simp add: ascending_order_def)
  then have "[(a, 3), (b, 4), (v, k)] = sort_key snd vc"
    using keys by (rule ascending_order_unique)
  moreover have "sorted_vc = sort_key snd vc"
    using asc keys by (rule ascending_order_unique)
  ultimately show ?thesis by simp
qed

lemma three_columns_state:
  assumes "4 < k"
  shows "select_columns 12 [(a, 3), (b, 4), (v, k)] init_state
           = \<lparr>cumproduct = 12, coord = [a, b], var = [v], valid = True\<rparr>"
  using assms by (simp add: init_state_def Let_def)

text \<open>
  C1 (as amended).  On a table of exactly 12 rows made of a column \<open>A\<close> with 3 distinct
  cells, a column \<open>B\<close> with 4, in which no pair of an \<open>A\<close> cell and a \<open>B\<close> cell occurs
  twice, and a column \<open>V\<close> with more than 4 distinct cells, in any column order,
  \<open>classify_and_build\<close> returns a dataset with the dimensions \<open>[A, B]\<close>, the single layer
  \<open>V\<close> and the shape \<open>(3, 4)\<close>; every pair of an \<open>A\<close> label and a \<open>B\<close> label belongs to
  a row, and the cell of \<open>V\<close> at the pair of a row is the \<open>V\<close> cell of that row.
\<close>

theorem cross_product_round_trip:
  assumes wf: "wf_df df"
    and asc: "ascending_order (value_counts df) (sort_values (value_counts df))"
    and cols: "mset df = {#(a, as), (b, bs), (v, vs)#}"
    and rows: "len_df df = 12"
    and ca: "nunique as = 3"
    and cb: "nunique bs = 4"
    and cv: "4 < nunique vs"
    and once: "distinct (zip as bs)"
  shows "\<exists>ds. classify_and_build sort_values df = Inr ds
           \<and> dims ds = [a, b]
           \<and> map fst (data_vars ds) = [v]
           \<and> shape ds = [3, 4]
           \<and> (\<forall>i<12. cell ds v [as ! i, bs ! i] = Some (vs ! i))
           \<and> (\<forall>x\<in>set as. \<forall>y\<in>set bs. \<exists>i<12. as ! i = x \<and> bs ! i = y)"
proof -
  have names: "distinct (map fst df)"
    using wf by (simp add: wf_df_def)
  have mem: "(a, as) \<in> set df" "(b, bs) \<in> set df" "(v, vs) \<in> set df"
  proof -
    have "set df = set_mset (mset df)" by simp
    then have "set df = {(a, as), (b, bs), (v, vs)}"
      unfolding cols by auto
    then show "(a, as) \<in> set df" "(b, bs) \<in> set df" "(v, vs) \<in> set df"
      by simp_all
  qed
  have len: "length as = 12" "length bs = 12" "length vs = 12"
    using wf mem rows by (auto simp add: wf_df_def list_all_iff)
  have col: "column_of df a = as" "column_of df b = bs" "column_of df v = vs"
    using names mem by (simp_all add: column_of_member)
  have "image_mset (\<lambda>c. (fst c, nunique (snd c))) (mset df)
          = {#(a, 3), (b, 4), (v, nunique vs)#}"
    unfolding cols using ca cb by simp
  then have vc: "mset (value_counts df) = {#(a, 3), (b, 4), (v, nunique vs)#}"
    by (simp add: value_counts_def)
  have order: "sort_values (value_counts df) = [(a, 3), (b, 4), (v, nunique vs)]"
    using asc vc cv by (rule three_columns_order)
  have fs: "final_state sort_values df
              = \<lparr>cumproduct = 12, coord = [a, b], var = [v], valid = True\<rparr>"
    unfolding final_state_def order rows using cv by (rule three_columns_state)
  have idx: "index_tuples df [a, b] = map (\<lambda>p. [fst p, snd p]) (zip as bs)"
    using col(1,2) len(1,2) rows by (simp add: index_tuples_pair)
  have didx: "distinct (map (\<lambda>p. [fst p, snd p]) (zip as bs))"
    using once by (rule distinct_pair_tuples)
  define ds where "ds = \<lparr>dims = [a, b], coords = [(a, set as), (b, set bs)],
                          data_vars = [(v, zip (map (\<lambda>p. [fst p, snd p]) (zip as bs)) vs)],
                          attrs = []\<rparr>"
  have nometa: "meta_cols sort_values df = []"
    unfolding meta_cols_def order using cv by simp
  have "to_xarray df [a, b] [v] = Inr ds"
    using didx by (simp add: to_xarray_def idx col ds_def)
  then have res: "classify_and_build sort_values df = Inr ds"
    using rows by (simp add: classify_and_build_final fs nometa ds_def)
  have sh: "shape ds = [3, 4]"
    using ca cb by (simp add: shape_def ds_def nunique_def length_remdups_card_conv)
  have cells: "cell ds v [as ! i, bs ! i] = Some (vs ! i)" if "i < 12" for i
  proof -
    have "map (\<lambda>p. [fst p, snd p]) (zip as bs) ! i = [as ! i, bs ! i]"
      using that len by simp
    moreover have "map_of (zip (map (\<lambda>p. [fst p, snd p]) (zip as bs)) vs)
                     (map (\<lambda>p. [fst p, snd p]) (zip as bs) ! i) = Some (vs ! i)"
      using didx that len by (intro map_of_zip_nth) simp_all
    ultimately show ?thesis
      by (simp add: cell_def ds_def)
  qed
  have cover: "\<exists>i<12. as ! i = x \<and> bs ! i = y" if "x \<in> set as" and "y \<in> set bs" for x y
    using once len(1,2) _ that by (rule grid_covered) (simp add: ca cb)
  show ?thesis
    using res sh cells cover by (intro exI [of _ ds]) (simp add: ds_def)
qed

theorem cross_product_round_trip_witness:
  "wf_df plain_grid
   \<and> ascending_order (value_counts plain_grid) (sort_key snd (value_counts plain_grid))
   \<and> mset plain_grid = {#(''A'', a_cells), (''B'', b_cells), (''V'', v_cells)#}
   \<and> len_df plain_grid = 12
   \<and> nunique a_cells = 3 \<and> nunique b_cells = 4 \<and> 4 < nunique v_cells
   \<and> distinct (zip a_cells b_cells)
   \<and> (\<exists>ds. classify_and_build (sort_key snd) plain_grid = Inr ds
          \<and> dims ds = [''A'', ''B'']
          \<and> map fst (data_vars ds) = [''V'']
          \<and> shape ds = [3, 4]
          \<and> cell ds ''V'' [IntV 2, IntV 3] = Some (IntV 23))"
proof -
  have wf: "wf_df plain_grid"
    by code_simp
  have asc: "ascending_order (value_counts plain_grid) (sort_key snd (value_counts plain_grid))"
    by (rule ascending_order_sort_key)
  have cols: "mset plain_grid = {#(''A'', a_cells), (''B'', b_cells), (''V'', v_cells)#}"
    by (simp add: plain_grid_def)
  have rows: "len_df plain_grid = 12"
    by code_simp
  have ca: "nunique a_cells = 3"
    by code_simp
  have cb: "nunique b_cells = 4"
    by code_simp
  have cv: "4 < nunique v_cells"
    by code_simp
  have once: "distinct (zip a_cells b_cells)"
    by code_simp
  have row7: "a_cells ! 7 = IntV 2" "b_cells ! 7 = IntV 3" "v_cells ! 7 = IntV 23"
    by code_simp+
  from cross_product_round_trip
         [where sort_values = "sort_key snd" and df = plain_grid,
          OF wf asc cols rows ca cb cv once]
  obtain ds where p: "classify_and_build (sort_key snd) plain_grid = Inr ds
           \<and> dims ds = [''A'', ''B'']
           \<and> map fst (data_vars ds) = [''V'']
           \<and> shape ds = [3, 4]
           \<and> (\<forall>i<12. cell ds ''V'' [a_cells ! i, b_cells ! i] = Some (v_cells ! i))
           \<and> (\<forall>x\<in>set a_cells. \<forall>y\<in>set b_cells. \<exists>i<12. a_cells ! i = x \<and> b_cells ! i = y)"
    ..
  note res = p [THEN conjunct1]
    and d = p [THEN conjunct2, THEN conjunct1] p [THEN conjunct2, THEN conjunct2, THEN conjunct1]
      p [THEN conjunct2, THEN conjunct2, THEN conjunct2, THEN conjunct1]
    and cells = p [THEN conjunct2, THEN conjunct2, THEN conjunct2, THEN conjunct2, THEN conjunct1]
  from cells have "cell ds ''V'' [a_cells ! 7, b_cells ! 7] = Some (v_cells ! 7)"
    by simp
  then have "cell ds ''V'' [IntV 2, IntV 3] = Some (IntV 23)"
    by (simp only: row7)
  with res d have "\<exists>ds. classify_and_build (sort_key snd) plain_grid = Inr ds
          \<and> dims ds = [''A'', ''B'']
          \<and> map fst (data_vars ds) = [''V'']
          \<and> shape ds = [3, 4]
          \<and> cell ds ''V'' [IntV 2, IntV 3] = Some (IntV 23)"
    by (intro exI [of _ ds] conjI)
  with wf asc cols rows ca cb cv once show ?thesis
    by (intro conjI)
qed

text \<open>
  The claim as written fails on the same grid when the outcome \<open>V\<close> takes two values only:
  \<open>V\<close> is then met first, the running product goes 2, 6, 24 and the call fails.
\<close>

theorem cross_product_round_trip_counterexample:
  "wf_df flag_grid
   \<and> len_df flag_grid = 12
   \<and> value_counts flag_grid = [(''A'', 3), (''B'', 4), (''V'', 2)]
   \<and> distinct (zip a_cells b_cells)
   \<and> classify_and_build (sort_key snd) flag_grid = Inl (RuntimeError shape_message)"
proof -
  have "wf_df flag_grid"
    by code_simp
  moreover have "len_df flag_grid = 12"
    by code_simp
  moreover have "value_counts flag_grid = [(''A'', 3), (''B'', 4), (''V'', 2)]"
    by code_simp
  moreover have "distinct (zip a_cells b_cells)"
    by code_simp
  moreover have "classify_and_build (sort_key snd) flag_grid = Inl (RuntimeError shape_message)"
    by code_simp
  ultimately show ?thesis by simp
qed

section \<open>Properties of the NetLogo adapter\<close>

lemma read_netlogo_table_attrs:
  assumes "read_netlogo_table sort_values path = Inr ds'"
  obtains ds df df2 row rest where
    "read_sweep_csv sort_values path (Some [''[run number]'']) 6 = Inr ds"
    and "read_csv path 0 (Some 3) None = Inr df"
    and "read_csv path 4 (Some 1) None = Inr df2"
    and "values_of df2 = row # rest"
    and "dims ds' = dims ds" and "coords ds' = coords ds" and "data_vars ds' = data_vars ds"
    and "map_of (attrs ds') ''Metadata''
           = Some (Info (map Name (columns df) @ map Cell (concat (values_of df))
                         @ [Dict (zip (columns df2) row)]))"
    and "\<And>k. k \<noteq> ''Metadata'' \<Longrightarrow> map_of (attrs ds') k = map_of (attrs ds) k"
  using assms
  by (auto simp add: read_netlogo_table_def Let_def update_conv
        split: sum.splits list.splits)

text \<open>
  C8.  On a file of the dialect whose table of runs has a constant column called
  \<open>Metadata\<close>, \<open>read_sweep_csv\<close> records the value of that column under the attribute
  \<open>Metadata\<close>, and \<open>read_netlogo_table\<close> replaces it by the list parsed from the preamble:
  the attributes taken from the constant columns are not all left unchanged.
\<close>

theorem netlogo_metadata_replaces_constant:
  "(\<exists>ds. read_sweep_csv (sort_key snd) netlogo_file (Some [''[run number]'']) 6 = Inr ds
        \<and> dims ds = [''X'', ''Y'']
        \<and> map fst (data_vars ds) = [''count turtles'']
        \<and> attrs ds = [(''Metadata'', Scalar (StrV ''v1''))])
   \<and> (\<exists>ds'. read_netlogo_table (sort_key snd) netlogo_file = Inr ds'
        \<and> dims ds' = [''X'', ''Y'']
        \<and> map fst (data_vars ds') = [''count turtles'']
        \<and> attrs ds' =
            [(''Metadata'',
              Info [Name ''BehaviorSpace results (NetLogo 6.2.0)'',
                    Cell (StrV ''sweep.nlogo''), Cell (StrV ''experiment''),
                    Cell (StrV ''11/03/2026 10:00:00:000 +0000''),
                    Dict [(''min-pxcor'', IntV (- 16)), (''max-pxcor'', IntV 16),
                          (''min-pycor'', IntV (- 16)), (''max-pycor'', IntV 16)]])])"
proof -
  have "\<not> isl (read_sweep_csv (sort_key snd) netlogo_file (Some [''[run number]'']) 6)"
    by code_simp
  then obtain ds where ds: "read_sweep_csv (sort_key snd) netlogo_file (Some [''[run number]'']) 6 = Inr ds"
    by (cases "read_sweep_csv (sort_key snd) netlogo_file (Some [''[run number]'']) 6") auto
  have "dims (projr (read_sweep_csv (sort_key snd) netlogo_file (Some [''[run number]'']) 6))
          = [''X'', ''Y'']"
    by code_simp
  moreover have "map fst (data_vars (projr (read_sweep_csv (sort_key snd) netlogo_file (Some [''[run number]'']) 6)))
          = [''count turtles'']"
    by code_simp
  moreover have "attrs (projr (read_sweep_csv (sort_key snd) netlogo_file (Some [''[run number]'']) 6))
          = [(''Metadata'', Scalar (StrV ''v1''))]"
    by code_simp
  ultimately have one: "dims ds = [''X'', ''Y'']" "map fst (data_vars ds) = [''count turtles'']"
      "attrs ds = [(''Metadata'', Scalar (StrV ''v1''))]"
    by (simp_all add: ds)
  have "\<not> isl (read_netlogo_table (sort_key snd) netlogo_file)"
    by code_simp
  then obtain ds' where ds': "read_netlogo_table (sort_key snd) netlogo_file = Inr ds'"
    by (cases "read_netlogo_table (sort_key snd) netlogo_file") auto
  have "dims (projr (read_netlogo_table (sort_key snd) netlogo_file)) = [''X'', ''Y'']"
    by code_simp
  moreover have "map fst (data_vars (projr (read_netlogo_table (sort_key snd) netlogo_file)))
          = [''count turtles'']"
    by code_simp
  moreover have "attrs (projr (read_netlogo_table (sort_key snd) netlogo_file)) =
            [(''Metadata'',
              Info [Name ''BehaviorSpace results (NetLogo 6.2.0)'',
                    Cell (StrV ''sweep.nlogo''), Cell (StrV ''experiment''),
                    Cell (StrV ''11/03/2026 10:00:00:000 +0000''),
                    Dict [(''min-pxcor'', IntV (- 16)), (''max-pxcor'', IntV 16),
                          (''min-pycor'', IntV (- 16)), (''max-pycor'', IntV 16)]])]"
    by code_simp
  ultimately have two: "dims ds' = [''X'', ''Y'']" "map fst (data_vars ds') = [''count turtles'']"
      "attrs ds' =
            [(''Metadata'',
              Info [Name ''BehaviorSpace results (NetLogo 6.2.0)'',
                    Cell (StrV ''sweep.nlogo''), Cell (StrV ''experiment''),
                    Cell (StrV ''11/03/2026 10:00:00:000 +0000''),
                    Dict [(''min-pxcor'', IntV (- 16)), (''max-pxcor'', IntV 16),
                          (''min-pycor'', IntV (- 16)), (''max-pycor'', IntV 16)]])]"
    by (simp_all add: ds')
  show ?thesis
    using ds one ds' two by (intro conjI exI [of _ ds] exI [of _ ds'])
qed

end
